theory Spec2Isabelle
  imports Main
begin

section \<open>Outcomes of a call\<close>

text \<open>
  The containers of \<^verbatim>\<open>static_types.h\<close> are class templates: their contents are
  template arguments, so a container is modelled by the list of its arguments. A call on
  a container has one of four outcomes: it returns a value, it throws
  \<^verbatim>\<open>std::out_of_range\<close> with a message, it has no valid instantiation (a
  \<^verbatim>\<open>requires\<close> clause fails or a template parameter is left without an argument,
  so the call is rejected when the program is built), or it reads a built-in array past
  its end, for which the language defines no behaviour.

  Whether a call has an instantiation is settled when the program is built, before any
  run-time value is known: a helper that names \<^verbatim>\<open>helper<N-1, REST...>\<close> under
  \<^verbatim>\<open>if constexpr (N)\<close> needs that instantiation whichever branch it takes at run
  time. The models of the helpers therefore look at the outcome of the recursive call
  first, and pass \<open>Ill_formed\<close> on before they compare keys or indices.
\<close>

datatype error =
    Out_of_range string
  | Ill_formed
  | Undefined_behaviour

type_synonym 'a result = "error + 'a"

text \<open>
  \<^verbatim>\<open>sizeof...(ARGS) - 1\<close> is computed in \<^verbatim>\<open>size_t\<close>: on an empty pack it
  wraps around to the largest value of the type (64 bits here).
\<close>

definition size_t_dec :: "nat \<Rightarrow> nat" where
  "size_t_dec n = (if n = 0 then 2 ^ 64 - 1 else n - 1)"

section \<open>Constant Sequence: \<^verbatim>\<open>tlist\<close>\<close>

text \<open>
  \<^verbatim>\<open>tlist<T, ARGS...>\<close> holds \<^verbatim>\<open>T values[sizeof...(ARGS)] = {ARGS...}\<close>.
  \<^verbatim>\<open>operator[]\<close> is \<^verbatim>\<open>values[i_]\<close>, a plain array subscript with an unsigned
  index and no range check.
\<close>

definition tlist_size :: "'a list \<Rightarrow> nat" where
  "tlist_size ARGS = length ARGS"

definition tlist_index :: "'a list \<Rightarrow> nat \<Rightarrow> 'a result" where
  "tlist_index ARGS i =
     (if i < length ARGS then Inr (ARGS ! i) else Inl Undefined_behaviour)"

section \<open>String Sequence: \<^verbatim>\<open>tstrlist\<close>\<close>

text \<open>
  \<^verbatim>\<open>get_helper<N, T, REST...>(i)\<close>, constrained by
  \<^verbatim>\<open>requires (N < sizeof...(ARGS))\<close> where \<^verbatim>\<open>ARGS\<close> is the pack of the class
  (its size is the parameter \<open>sz\<close>). The first equation is the call with no type left
  for \<^verbatim>\<open>T\<close>. The instantiation of \<^verbatim>\<open>get_helper<N-1, REST...>\<close> is required
  whenever \<^verbatim>\<open>N\<close> is not zero, whatever \<^verbatim>\<open>i\<close> is at run time.
\<close>

fun tstrlist_get_helper :: "nat \<Rightarrow> nat \<Rightarrow> string list \<Rightarrow> nat \<Rightarrow> string result" where
  "tstrlist_get_helper sz N [] i = Inl Ill_formed"
| "tstrlist_get_helper sz N (T # REST) i =
     (if \<not> N < sz then Inl Ill_formed
      else if N \<noteq> 0 then
        (let r = tstrlist_get_helper sz (N - 1) REST i in
         if r = Inl Ill_formed then r
         else if i = N then Inr T
         else r)
      else if i = N then Inr T
      else Inl (Out_of_range ''index error in get_helper''))"

definition tstrlist_size :: "string list \<Rightarrow> nat" where
  "tstrlist_size ARGS = length ARGS"

definition tstrlist_index :: "string list \<Rightarrow> nat \<Rightarrow> string result" where
  "tstrlist_index ARGS i =
     tstrlist_get_helper (length ARGS) (size_t_dec (length ARGS)) ARGS i"

section \<open>Heterogeneous Sequence: \<^verbatim>\<open>thlist\<close>\<close>

text \<open>
  \<^verbatim>\<open>thlist<ARGS...>\<close> owns \<^verbatim>\<open>std::tuple<ARGS...> items\<close>. The slots have
  different types; the model takes one type \<open>'a\<close> for all of them (their tagged union).
  A visitor is called on a reference to a slot, so it may change the slot, and it may
  change what it captured by reference (the state \<open>'s\<close>).
\<close>

type_synonym ('a, 's) visitor = "'a \<Rightarrow> 's \<Rightarrow> 'a \<times> 's"

definition thlist_size :: "'a list \<Rightarrow> nat" where
  "thlist_size items = length items"

text \<open>The call \<^verbatim>\<open>visitor(std::get<N>(items))\<close>.\<close>

definition invoke :: "('a, 's) visitor \<Rightarrow> nat \<Rightarrow> 'a list \<times> 's \<Rightarrow> 'a list \<times> 's" where
  "invoke visitor N st =
     (let (a, s') = visitor (fst st ! N) (snd st) in ((fst st)[N := a], s'))"

text \<open>
  \<^verbatim>\<open>visit<N>(visitor)\<close>, constrained by \<^verbatim>\<open>requires (N < sizeof...(ARGS))\<close>:
  it calls the visitor on slot \<^verbatim>\<open>N\<close>, then \<^verbatim>\<open>if constexpr (N)\<close> goes on with
  \<^verbatim>\<open>visit<N-1>\<close>.
\<close>

fun visit_from :: "nat \<Rightarrow> ('a, 's) visitor \<Rightarrow> 'a list \<times> 's \<Rightarrow> unit result \<times> 'a list \<times> 's" where
  "visit_from N visitor st =
     (if \<not> N < length (fst st) then (Inl Ill_formed, st)
      else
        (let st' = invoke visitor N st in
         if N \<noteq> 0 then visit_from (N - 1) visitor st'
         else (Inr (), st')))"

text \<open>
  \<^verbatim>\<open>visit(visitor)\<close>, constrained by \<^verbatim>\<open>requires (sizeof...(ARGS) > 0)\<close>.
\<close>

definition visit :: "('a, 's) visitor \<Rightarrow> 'a list \<times> 's \<Rightarrow> unit result \<times> 'a list \<times> 's" where
  "visit visitor st =
     (if \<not> length (fst st) > 0 then (Inl Ill_formed, st)
      else visit_from (size_t_dec (length (fst st))) visitor st)"

text \<open>
  \<^verbatim>\<open>ivisit<N>(visitor, i)\<close>: the visitor is called when \<^verbatim>\<open>i == N\<close>; then
  \<^verbatim>\<open>if constexpr (N)\<close> the scan goes on with \<^verbatim>\<open>ivisit<N-1>\<close>, whose exception
  passes through; the last statement of the body, reached in every instantiation whose
  callee returns, is the \<^verbatim>\<open>throw\<close>. What the visitor did before the exception stays
  done, so the state comes back with the error.
\<close>

fun ivisit :: "nat \<Rightarrow> ('a, 's) visitor \<Rightarrow> nat \<Rightarrow> 'a list \<times> 's \<Rightarrow> unit result \<times> 'a list \<times> 's" where
  "ivisit N visitor i st =
     (if \<not> N < length (fst st) then (Inl Ill_formed, st)
      else
        (let st' = (if i = N then invoke visitor N st else st) in
         if N \<noteq> 0 then
           (case ivisit (N - 1) visitor i st' of
              (Inl e, st'') \<Rightarrow> (Inl e, st'')
            | (Inr u, st'') \<Rightarrow> (Inl (Out_of_range ''out of range in ivisit''), st''))
         else (Inl (Out_of_range ''out of range in ivisit''), st')))"

text \<open>
  \<^verbatim>\<open>visit(visitor, i)\<close>, constrained by \<^verbatim>\<open>requires (sizeof...(ARGS) > 0)\<close>.
\<close>

definition visit_index :: "('a, 's) visitor \<Rightarrow> nat \<Rightarrow> 'a list \<times> 's \<Rightarrow> unit result \<times> 'a list \<times> 's" where
  "visit_index visitor i st =
     (if \<not> length (fst st) > 0 then (Inl Ill_formed, st)
      else ivisit (size_t_dec (length (fst st))) visitor i st)"

section \<open>Associative Map: \<^verbatim>\<open>tmap\<close>\<close>

text \<open>
  \<^verbatim>\<open>tmap<KEY, VALUE, KVPAIRS...>\<close>. A binding is a type \<^verbatim>\<open>KV\<close> such as
  \<^verbatim>\<open>std::pair<tstr("k"), V>\<close>: \<^verbatim>\<open>KV().first()\<close> is its key and
  \<^verbatim>\<open>KV().second\<close> its value, so a binding is modelled by the pair of the two and
  \<^verbatim>\<open>KVPAIRS\<close> by an association list, in declaration order.
\<close>

definition tmap_size :: "('k \<times> 'v) list \<Rightarrow> nat" where
  "tmap_size KVPAIRS = length KVPAIRS"

text \<open>
  \<^verbatim>\<open>size_helper<N, KV, REST...>(key_)\<close> on a map whose values are String Sequences;
  \<^verbatim>\<open>KV().second.size()\<close> is \<^verbatim>\<open>tstrlist::size\<close>.
\<close>

fun size_helper :: "nat \<Rightarrow> nat \<Rightarrow> ('k \<times> string list) list \<Rightarrow> 'k \<Rightarrow> nat result" where
  "size_helper sz N [] key = Inl Ill_formed"
| "size_helper sz N (KV # REST) key =
     (if \<not> N < sz then Inl Ill_formed
      else if N \<noteq> 0 then
        (let r = size_helper sz (N - 1) REST key in
         if r = Inl Ill_formed then r
         else if fst KV = key then Inr (tstrlist_size (snd KV))
         else r)
      else if fst KV = key then Inr (tstrlist_size (snd KV))
      else Inl (Out_of_range ''couldn't find key in tmap in size_helper''))"

text \<open>\<^verbatim>\<open>size(key_)\<close> is \<^verbatim>\<open>size_helper<sizeof...(KVPAIRS) - 1, KVPAIRS...>(key_)\<close>.\<close>

definition tmap_size_key :: "('k \<times> string list) list \<Rightarrow> 'k \<Rightarrow> nat result" where
  "tmap_size_key KVPAIRS key =
     size_helper (length KVPAIRS) (size_t_dec (length KVPAIRS)) KVPAIRS key"

text \<open>
  \<^verbatim>\<open>index_helper<N, KV, REST...>(key_)\<close>. Its type arguments are not all bindings
  (see \<open>tmap_index\<close> below), so an argument in the place of \<^verbatim>\<open>KV\<close> is an option:
  \<open>Some (k, v)\<close> for a type whose \<^verbatim>\<open>first()\<close> is \<open>k\<close> and whose \<^verbatim>\<open>second\<close>
  converts to the \<^verbatim>\<open>VALUE\<close> \<open>v\<close>, \<open>None\<close> for a type without these members
  (\<^verbatim>\<open>std::string_view\<close>, \<^verbatim>\<open>double\<close>, \<^verbatim>\<open>tstrlist\<close>), on which
  \<^verbatim>\<open>KV().first()\<close> does not compile.
\<close>

fun index_helper :: "nat \<Rightarrow> nat \<Rightarrow> ('k \<times> 'v) option list \<Rightarrow> 'k \<Rightarrow> 'v result" where
  "index_helper sz N [] key = Inl Ill_formed"
| "index_helper sz N (None # REST) key = Inl Ill_formed"
| "index_helper sz N (Some KV # REST) key =
     (if \<not> N < sz then Inl Ill_formed
      else if N \<noteq> 0 then
        (let r = index_helper sz (N - 1) REST key in
         if r = Inl Ill_formed then r
         else if fst KV = key then Inr (snd KV)
         else r)
      else if fst KV = key then Inr (snd KV)
      else Inl (Out_of_range ''couldn't find key in tmap in index_helper''))"

text \<open>
  \<^verbatim>\<open>operator[](key_)\<close> is
  \<^verbatim>\<open>index_helper<sizeof...(KVPAIRS) - 1, VALUE, KVPAIRS...>(key_)\<close>: the type
  \<^verbatim>\<open>VALUE\<close> stands first in the pack, in the place of a binding. The parameter
  \<open>VALUE\<close> says what \<^verbatim>\<open>VALUE\<close> is when it is read as a binding.
\<close>

definition tmap_index :: "('k \<times> 'v) option \<Rightarrow> ('k \<times> 'v) list \<Rightarrow> 'k \<Rightarrow> 'v result" where
  "tmap_index VALUE KVPAIRS key =
     index_helper (length KVPAIRS) (size_t_dec (length KVPAIRS)) (VALUE # map Some KVPAIRS) key"

text \<open>
  \<^verbatim>\<open>get_helper<N, KV, REST...>(key_, i_)\<close> on a map whose values are String
  Sequences. \<^verbatim>\<open>KV().second[i_]\<close> is \<^verbatim>\<open>tstrlist::operator[]\<close>; it is
  instantiated for every binding of the pack, whichever key matches at run time.
\<close>

fun tmap_get_helper :: "nat \<Rightarrow> nat \<Rightarrow> ('k \<times> string list) list \<Rightarrow> 'k \<Rightarrow> nat \<Rightarrow> string result" where
  "tmap_get_helper sz N [] key i = Inl Ill_formed"
| "tmap_get_helper sz N (KV # REST) key i =
     (if \<not> N < sz then Inl Ill_formed
      else if tstrlist_index (snd KV) i = Inl Ill_formed then Inl Ill_formed
      else if N \<noteq> 0 then
        (let r = tmap_get_helper sz (N - 1) REST key i in
         if r = Inl Ill_formed then r
         else if fst KV = key then tstrlist_index (snd KV) i
         else r)
      else if fst KV = key then tstrlist_index (snd KV) i
      else Inl (Out_of_range ''couldn't find key in tmap in get_helper''))"

text \<open>
  \<^verbatim>\<open>operator()(key_, i_)\<close> is
  \<^verbatim>\<open>get_helper<sizeof...(KVPAIRS) - 1, KVPAIRS...>(key_, i_)\<close>.
\<close>

definition tmap_get :: "('k \<times> string list) list \<Rightarrow> 'k \<Rightarrow> nat \<Rightarrow> string result" where
  "tmap_get KVPAIRS key i =
     tmap_get_helper (length KVPAIRS) (size_t_dec (length KVPAIRS)) KVPAIRS key i"

text \<open>The map of \<^verbatim>\<open>instance3\<close> in \<^verbatim>\<open>test.cc\<close>.\<close>

definition groupdefs :: "(string \<times> string list) list" where
  "groupdefs = [(''chicken'', [''foo'', ''bar'']), (''beef'', [''baz'', ''bat''])]"

declare visit_from.simps [simp del] ivisit.simps [simp del]

section \<open>Properties of the String Sequence\<close>

lemma size_t_dec_pos: "0 < n \<Longrightarrow> size_t_dec n = n - 1"
  by (simp add: size_t_dec_def)

lemma tstrlist_get_helper_scan:
  "length Ts = Suc N \<Longrightarrow> N < sz \<Longrightarrow>
   tstrlist_get_helper sz N Ts i =
     (if i \<le> N then Inr (Ts ! (N - i)) else Inl (Out_of_range ''index error in get_helper''))"
proof (induction Ts arbitrary: N)
  case Nil
  then show ?case by simp
next
  case (Cons T REST)
  show ?case
  proof (cases N)
    case 0
    with Cons.prems show ?thesis by simp
  next
    case (Suc n)
    with Cons.prems have len: "length REST = Suc n" and lt: "n < sz" by simp_all
    have ih: "tstrlist_get_helper sz n REST i =
        (if i \<le> n then Inr (REST ! (n - i)) else Inl (Out_of_range ''index error in get_helper''))"
      by (rule Cons.IH [OF len lt])
    show ?thesis
    proof (cases "i \<le> n")
      case True
      then have "Suc n - i = Suc (n - i)" by simp
      with True Suc Cons.prems ih show ?thesis by simp
    next
      case False
      with Suc Cons.prems ih show ?thesis by auto
    qed
  qed
qed

lemma tstrlist_index_nonempty:
  assumes "ARGS \<noteq> []"
  shows "tstrlist_index ARGS i =
     (if i < length ARGS then Inr (ARGS ! (length ARGS - 1 - i))
      else Inl (Out_of_range ''index error in get_helper''))"
proof -
  from assms have pos: "0 < length ARGS" by simp
  then have len: "length ARGS = Suc (length ARGS - 1)" by simp
  have "tstrlist_get_helper (length ARGS) (length ARGS - 1) ARGS i =
     (if i \<le> length ARGS - 1 then Inr (ARGS ! (length ARGS - 1 - i))
      else Inl (Out_of_range ''index error in get_helper''))"
    by (rule tstrlist_get_helper_scan [OF len]) (use pos in simp)
  moreover have "i \<le> length ARGS - 1 \<longleftrightarrow> i < length ARGS"
    using pos by (cases "length ARGS") (simp_all add: less_Suc_eq_le)
  ultimately show ?thesis
    using pos by (simp add: tstrlist_index_def size_t_dec_pos)
qed

lemma tstrlist_index_empty: "tstrlist_index [] i = Inl Ill_formed"
  by (simp add: tstrlist_index_def)

lemma tstrlist_index_out_of_range:
  "ARGS \<noteq> [] \<Longrightarrow> tstrlist_size ARGS \<le> i \<Longrightarrow>
   tstrlist_index ARGS i = Inl (Out_of_range ''index error in get_helper'')"
  by (simp add: tstrlist_index_nonempty tstrlist_size_def)

section \<open>Properties of the Heterogeneous Sequence\<close>

lemma length_invoke: "length (fst (invoke visitor N st)) = length (fst st)"
  by (simp add: invoke_def split: prod.splits)

lemma visit_from_fold:
  "N < length (fst st) \<Longrightarrow>
   visit_from N visitor st = (Inr (), foldl (\<lambda>st n. invoke visitor n st) st (rev [0..<Suc N]))"
proof (induction N arbitrary: st)
  case 0
  then show ?case by (simp add: visit_from.simps [of 0])
next
  case (Suc n)
  let ?st = "invoke visitor (Suc n) st"
  from Suc.prems have "n < length (fst ?st)" by (simp add: length_invoke)
  then have "visit_from n visitor ?st =
      (Inr (), foldl (\<lambda>st n. invoke visitor n st) ?st (rev [0..<Suc n]))"
    by (rule Suc.IH)
  moreover from Suc.prems have "visit_from (Suc n) visitor st = visit_from n visitor ?st"
    by (simp add: visit_from.simps [of "Suc n"])
  ultimately show ?case by simp
qed

lemma visit_fold:
  assumes "fst st \<noteq> []"
  shows "visit visitor st =
    (Inr (), foldl (\<lambda>st n. invoke visitor n st) st (rev [0..<length (fst st)]))"
proof -
  from assms obtain n where n: "length (fst st) = Suc n" by (cases "fst st") auto
  then have "visit visitor st = visit_from n visitor st"
    by (simp add: visit_def size_t_dec_def)
  also from n have "\<dots> = (Inr (), foldl (\<lambda>st n. invoke visitor n st) st (rev [0..<Suc n]))"
    by (intro visit_from_fold) simp
  finally show ?thesis by (simp only: n)
qed

lemma foldl_invoke_log:
  "foldl (\<lambda>st n. invoke (\<lambda>a log. (a, log @ [a])) n st) (items, log) ns =
     (items, log @ map ((!) items) ns)"
  by (induction ns arbitrary: log) (simp_all add: invoke_def)

lemma visit_log:
  assumes "items \<noteq> []"
  shows "visit (\<lambda>a log. (a, log @ [a])) (items, []) = (Inr (), items, rev items)"
proof -
  have "map ((!) items) (rev [0..<length items]) = rev items"
    by (simp only: rev_map [symmetric] map_nth)
  with assms show ?thesis
    by (simp add: visit_fold foldl_invoke_log)
qed

lemma ivisit_scan:
  "N < length (fst st) \<Longrightarrow>
   ivisit N visitor i st =
     (Inl (Out_of_range ''out of range in ivisit''), if i \<le> N then invoke visitor i st else st)"
proof (induction N arbitrary: st)
  case 0
  then show ?case by (simp add: ivisit.simps [of 0])
next
  case (Suc n)
  let ?st = "if i = Suc n then invoke visitor (Suc n) st else st"
  from Suc.prems have "n < length (fst ?st)" by (simp add: length_invoke)
  then have "ivisit n visitor i ?st =
      (Inl (Out_of_range ''out of range in ivisit''), if i \<le> n then invoke visitor i ?st else ?st)"
    by (rule Suc.IH)
  then have rec: "ivisit (Suc n) visitor i st =
      (Inl (Out_of_range ''out of range in ivisit''), if i \<le> n then invoke visitor i ?st else ?st)"
    using Suc.prems by (simp add: ivisit.simps [of "Suc n"])
  show ?case
  proof (cases "i = Suc n")
    case True
    with rec show ?thesis by simp
  next
    case False
    with rec show ?thesis by (simp add: le_Suc_eq)
  qed
qed

lemma visit_index_scan:
  assumes "fst st \<noteq> []"
  shows "visit_index visitor i st =
     (Inl (Out_of_range ''out of range in ivisit''),
      if i < length (fst st) then invoke visitor i st else st)"
proof -
  from assms obtain n where n: "length (fst st) = Suc n" by (cases "fst st") auto
  then have "visit_index visitor i st = ivisit n visitor i st"
    by (simp add: visit_index_def size_t_dec_def)
  also from n have "\<dots> = (Inl (Out_of_range ''out of range in ivisit''),
      if i \<le> n then invoke visitor i st else st)"
    by (intro ivisit_scan) simp
  finally show ?thesis using n by (simp add: less_Suc_eq_le)
qed

section \<open>Properties of the Associative Map\<close>

lemma tstrlist_index_ill_formed_iff: "tstrlist_index ARGS i = Inl Ill_formed \<longleftrightarrow> ARGS = []"
  by (cases "ARGS = []") (simp_all add: tstrlist_index_empty tstrlist_index_nonempty)

lemma size_helper_scan:
  "length KVs = Suc N \<Longrightarrow> N < sz \<Longrightarrow>
   size_helper sz N KVs key =
     (case map_of KVs key of
        None \<Rightarrow> Inl (Out_of_range ''couldn't find key in tmap in size_helper'')
      | Some xs \<Rightarrow> Inr (tstrlist_size xs))"
proof (induction KVs arbitrary: N)
  case Nil
  then show ?case by simp
next
  case (Cons KV REST)
  obtain k v where KV: "KV = (k, v)" by (cases KV)
  show ?case
  proof (cases N)
    case 0
    with Cons.prems KV show ?thesis by auto
  next
    case (Suc n)
    with Cons.prems have "length REST = Suc n" and "n < sz" by simp_all
    then have "size_helper sz n REST key =
       (case map_of REST key of
          None \<Rightarrow> Inl (Out_of_range ''couldn't find key in tmap in size_helper'')
        | Some xs \<Rightarrow> Inr (tstrlist_size xs))"
      by (rule Cons.IH)
    with Suc Cons.prems KV show ?thesis
      by (auto split: option.splits)
  qed
qed

lemma tmap_get_helper_scan:
  "length KVs = Suc N \<Longrightarrow> N < sz \<Longrightarrow> \<forall>kv \<in> set KVs. snd kv \<noteq> [] \<Longrightarrow>
   tmap_get_helper sz N KVs key i =
     (case map_of KVs key of
        None \<Rightarrow> Inl (Out_of_range ''couldn't find key in tmap in get_helper'')
      | Some xs \<Rightarrow> tstrlist_index xs i)"
proof (induction KVs arbitrary: N)
  case Nil
  then show ?case by simp
next
  case (Cons KV REST)
  obtain k v where KV: "KV = (k, v)" by (cases KV)
  from Cons.prems KV have v: "tstrlist_index v i \<noteq> Inl Ill_formed"
    by (simp add: tstrlist_index_ill_formed_iff)
  show ?case
  proof (cases N)
    case 0
    with Cons.prems KV v show ?thesis by auto
  next
    case (Suc n)
    with Cons.prems have "length REST = Suc n" and "n < sz" and "\<forall>kv \<in> set REST. snd kv \<noteq> []"
      by simp_all
    then have ih: "tmap_get_helper sz n REST key i =
       (case map_of REST key of
          None \<Rightarrow> Inl (Out_of_range ''couldn't find key in tmap in get_helper'')
        | Some xs \<Rightarrow> tstrlist_index xs i)"
      by (rule Cons.IH)
    have rest: "tmap_get_helper sz n REST key i \<noteq> Inl Ill_formed"
    proof (cases "map_of REST key")
      case None
      with ih show ?thesis by simp
    next
      case (Some xs)
      then have "(key, xs) \<in> set REST" by (rule map_of_SomeD)
      with \<open>\<forall>kv \<in> set REST. snd kv \<noteq> []\<close> have "xs \<noteq> []" by auto
      with ih Some show ?thesis by (simp add: tstrlist_index_ill_formed_iff)
    qed
    from Suc Cons.prems KV v rest show ?thesis
      by (simp add: ih Let_def)
  qed
qed

lemma tmap_index_not_binding: "tmap_index None KVPAIRS key = Inl Ill_formed"
  by (simp add: tmap_index_def)

section \<open>Termination of the helpers\<close>

text \<open>
  For each helper, \<^verbatim>\<open>N\<close> decreases at every recursive call, so every argument is in
  the well-founded part of the helper's call relation.
\<close>

lemma tstrlist_get_helper_terminates: "All tstrlist_get_helper_dom"
  by (relation "measure (\<lambda>(sz, N, Ts, i). N)") auto

lemma visit_from_terminates: "All visit_from_dom"
  by (relation "measure (\<lambda>(N, visitor, st). N)") auto

lemma ivisit_terminates: "All ivisit_dom"
  by (relation "measure (\<lambda>(N, visitor, i, st). N)") auto

lemma size_helper_terminates: "All size_helper_dom"
  by (relation "measure (\<lambda>(sz, N, KVs, key). N)") auto

lemma index_helper_terminates: "All index_helper_dom"
  by (relation "measure (\<lambda>(sz, N, KVs, key). N)") auto

lemma tmap_get_helper_terminates: "All tmap_get_helper_dom"
  by (relation "measure (\<lambda>(sz, N, KVs, key, i). N)") auto

section \<open>The claims\<close>

text \<open>
  C1. The round trip of construction, \<open>at(i) = v_i\<close>, fails on the String Sequence:
  \<^verbatim>\<open>get_helper\<close> compares \<^verbatim>\<open>i\<close> with \<^verbatim>\<open>N\<close>, which counts down from the last
  index, while it peels the types from the front, so index \<open>i\<close> yields the literal
  declared at position \<open>N - 1 - i\<close> (lemma \<open>tstrlist_index_nonempty\<close>). On
  \<^verbatim>\<open>tstrlist<tstr("foo"), tstr("bar")>\<close> index 0 yields "bar" and index 1 yields
  "foo"; the Constant Sequence built from the same two values returns them in the order
  supplied.
\<close>

theorem C1_tstrlist_index_reversed:
  "tstrlist_index [''foo'', ''bar''] 0 = Inr ''bar''
   \<and> tstrlist_index [''foo'', ''bar''] 1 = Inr ''foo''
   \<and> tlist_index [''foo'', ''bar''] 0 = Inr ''foo''
   \<and> tlist_index [''foo'', ''bar''] 1 = Inr ''bar''"
  by (simp add: tstrlist_index_def size_t_dec_def tlist_index_def)

text \<open>
  C2. \<^verbatim>\<open>visit(visitor, i)\<close> never succeeds: on a sequence of two slots, with a
  visitor that counts its calls, a valid index (0 or 1) gives one call and then
  \<^verbatim>\<open>std::out_of_range\<close>, and the index 2 gives no call and the same exception
  (lemma \<open>visit_index_scan\<close> is the general form). The claim asks for success on a
  valid index.
\<close>

theorem C2_visit_index_always_throws:
  "visit_index (\<lambda>a n. (a, Suc n)) 0 ([10, 20::nat], 0::nat) =
     (Inl (Out_of_range ''out of range in ivisit''), [10, 20], 1)
   \<and> visit_index (\<lambda>a n. (a, Suc n)) 1 ([10, 20::nat], 0::nat) =
     (Inl (Out_of_range ''out of range in ivisit''), [10, 20], 1)
   \<and> visit_index (\<lambda>a n. (a, Suc n)) 2 ([10, 20::nat], 0::nat) =
     (Inl (Out_of_range ''out of range in ivisit''), [10, 20], 0)"
  by (simp add: visit_index_def size_t_dec_def invoke_def ivisit.simps)

text \<open>
  C3. \<^verbatim>\<open>operator[]\<close> of the map does not look the key up among the bindings as they
  are declared. With a \<^verbatim>\<open>VALUE\<close> that has no \<^verbatim>\<open>first()\<close>, as every value type
  used in the repository, the call has no instantiation: on the bindings
  \<open>[("a", 1), ("a", 2)]\<close> the key "a" yields no value. With a \<^verbatim>\<open>VALUE\<close> that can
  be read as a binding, \<^verbatim>\<open>VALUE\<close> is scanned first and the last declared binding is
  never reached: on \<open>[("a", 1), ("b", 2)]\<close> the key "b" is reported missing. The claim
  asks for the value of the first binding whose key matches.
\<close>

theorem C3_tmap_index_misses_bindings:
  "tmap_index None [(''a'', 1::int), (''a'', 2)] ''a'' = Inl Ill_formed
   \<and> tmap_index (Some (''v'', 0)) [(''a'', 1::int), (''b'', 2)] ''b'' =
       Inl (Out_of_range ''couldn't find key in tmap in index_helper'')"
  by (simp add: tmap_index_def size_t_dec_def)

text \<open>
  C4. On the map of \<^verbatim>\<open>instance3\<close>, \<^verbatim>\<open>size("chicken")\<close> is 2 as claimed, but
  \<^verbatim>\<open>get("beef", 0)\<close> is "bat", not "baz": the String Sequence bound to "beef" is
  indexed from its end (see C1).
\<close>

theorem C4_groupdefs_lookup:
  "tmap_get groupdefs ''beef'' 0 = Inr ''bat''
   \<and> tmap_size_key groupdefs ''chicken'' = Inr 2"
  by (simp add: tmap_get_def tmap_size_key_def groupdefs_def size_t_dec_def
      tstrlist_index_def tstrlist_size_def)

text \<open>
  C5. \<^verbatim>\<open>tlist::operator[]\<close> does not check its index. On
  \<^verbatim>\<open>tlist<int64_t, 5, 7, -3>\<close>, the example of the header, index 3 reads past the
  end of \<^verbatim>\<open>values\<close> and nothing is thrown, where the claim asks for an IndexError.
  The String Sequence of the same size throws \<^verbatim>\<open>std::out_of_range\<close> at the same
  index (lemma \<open>tstrlist_index_out_of_range\<close> is the general form), as every other
  lookup of the header does on a miss.
\<close>

theorem C5_tlist_index_unchecked:
  "tlist_size [5::int, 7, - 3] = 3
   \<and> tlist_index [5::int, 7, - 3] 3 = Inl Undefined_behaviour
   \<and> tstrlist_index [''a'', ''b'', ''c''] 3 = Inl (Out_of_range ''index error in get_helper'')"
  by (simp add: tlist_size_def tlist_index_def tstrlist_index_def size_t_dec_def)

text \<open>
  The claim C6 as stated fails. On the map of \<^verbatim>\<open>instance3\<close>,
  \<^verbatim>\<open>get("beef", 0)\<close> returns a value while \<^verbatim>\<open>get("beef")\<close> has no
  instantiation (\<^verbatim>\<open>VALUE\<close> is \<^verbatim>\<open>std::string_view\<close>, see C3), so the two
  sides cannot be equal. On a map without bindings, and on a map that binds an empty
  String Sequence, \<^verbatim>\<open>get(key, i)\<close> has no instantiation either, so it raises neither
  a KeyError nor an IndexError.
\<close>

theorem C6_counterexample:
  "tmap_get groupdefs ''beef'' 0 = Inr ''bat''
   \<and> tmap_index None groupdefs ''beef'' = Inl Ill_formed
   \<and> tmap_get ([] :: (string \<times> string list) list) ''beef'' 0 = Inl Ill_formed
   \<and> tmap_get [(''beef'', [])] ''beef'' 0 = Inl Ill_formed"
  by (simp add: tmap_get_def tmap_index_def groupdefs_def size_t_dec_def tstrlist_index_def)

text \<open>
  C6, amended. On a map with at least one binding, all of whose values are String
  Sequences with at least one element, \<^verbatim>\<open>get(key, i)\<close> goes to the first binding,
  in declaration order, whose key equals \<open>key\<close>: when \<open>i\<close> is a valid index of its
  sequence the result is what \<^verbatim>\<open>operator[]\<close> of that sequence returns at \<open>i\<close>; when
  \<open>i\<close> is out of range for it the call throws the sequence's
  \<^verbatim>\<open>std::out_of_range\<close> (the IndexError); when no binding has the key it throws the
  map's \<^verbatim>\<open>std::out_of_range\<close> (the KeyError).
\<close>

theorem C6_get_two_level:
  assumes "KVPAIRS \<noteq> []" and "\<forall>kv \<in> set KVPAIRS. snd kv \<noteq> []"
  shows "tmap_get KVPAIRS key i =
     (case map_of KVPAIRS key of
        None \<Rightarrow> Inl (Out_of_range ''couldn't find key in tmap in get_helper'')
      | Some xs \<Rightarrow>
          if i < tstrlist_size xs then tstrlist_index xs i
          else Inl (Out_of_range ''index error in get_helper''))"
proof -
  from assms obtain n where n: "length KVPAIRS = Suc n" by (cases KVPAIRS) auto
  then have "tmap_get KVPAIRS key i = tmap_get_helper (Suc n) n KVPAIRS key i"
    by (simp add: tmap_get_def size_t_dec_def)
  also have "\<dots> = (case map_of KVPAIRS key of
        None \<Rightarrow> Inl (Out_of_range ''couldn't find key in tmap in get_helper'')
      | Some xs \<Rightarrow> tstrlist_index xs i)"
    by (rule tmap_get_helper_scan [OF n _ assms(2)]) simp
  finally have eq: "tmap_get KVPAIRS key i =
     (case map_of KVPAIRS key of
        None \<Rightarrow> Inl (Out_of_range ''couldn't find key in tmap in get_helper'')
      | Some xs \<Rightarrow> tstrlist_index xs i)" .
  show ?thesis
  proof (cases "map_of KVPAIRS key")
    case None
    with eq show ?thesis by simp
  next
    case (Some xs)
    then have "(key, xs) \<in> set KVPAIRS" by (rule map_of_SomeD)
    with assms(2) have "xs \<noteq> []" by auto
    with eq Some show ?thesis
      by (simp add: tstrlist_index_nonempty tstrlist_size_def)
  qed
qed

theorem C6_witness:
  "groupdefs \<noteq> [] \<and> list_all (\<lambda>kv. snd kv \<noteq> []) groupdefs
   \<and> tmap_get groupdefs ''chicken'' 1 = tstrlist_index [''foo'', ''bar''] 1
   \<and> tmap_get groupdefs ''chicken'' 2 = Inl (Out_of_range ''index error in get_helper'')
   \<and> tmap_get groupdefs ''pork'' 0 = Inl (Out_of_range ''couldn't find key in tmap in get_helper'')"
proof -
  have ne: "groupdefs \<noteq> []" and seqs: "\<forall>kv \<in> set groupdefs. snd kv \<noteq> []"
    by (simp_all add: groupdefs_def)
  have chicken: "map_of groupdefs ''chicken'' = Some [''foo'', ''bar'']"
    and pork: "map_of groupdefs ''pork'' = None"
    by (simp_all add: groupdefs_def)
  from C6_get_two_level [OF ne seqs, of "''chicken''" 1] chicken
  have "tmap_get groupdefs ''chicken'' 1 = tstrlist_index [''foo'', ''bar''] 1"
    by (simp add: tstrlist_size_def)
  moreover from C6_get_two_level [OF ne seqs, of "''chicken''" 2] chicken
  have "tmap_get groupdefs ''chicken'' 2 = Inl (Out_of_range ''index error in get_helper'')"
    by (simp add: tstrlist_size_def)
  moreover from C6_get_two_level [OF ne seqs, of "''pork''" 0] pork
  have "tmap_get groupdefs ''pork'' 0 = Inl (Out_of_range ''couldn't find key in tmap in get_helper'')"
    by simp
  ultimately show ?thesis using ne seqs by (simp add: list_all_iff)
qed

text \<open>
  C7. On a Heterogeneous Sequence of \<open>N \<ge> 1\<close> slots, \<^verbatim>\<open>visit(visitor)\<close> returns
  normally, and what it does is one call of the visitor on slot \<open>N - 1\<close>, then one on
  slot \<open>N - 2\<close>, and so on down to slot 0: \<open>N\<close> calls, one for each slot, the slot
  declared last coming first. For the visitor that appends the slot it is given to a
  log, the log at the end is the sequence reversed.
\<close>

theorem C7_visit_descending:
  assumes "items \<noteq> []"
  shows "visit visitor (items, s) =
       (Inr (), foldl (\<lambda>st n. invoke visitor n st) (items, s) (rev [0..<thlist_size items]))
     \<and> visit (\<lambda>a log. (a, log @ [a])) (items, []) = (Inr (), items, rev items)"
proof
  show "visit visitor (items, s) =
       (Inr (), foldl (\<lambda>st n. invoke visitor n st) (items, s) (rev [0..<thlist_size items]))"
    using assms by (simp add: visit_fold thlist_size_def)
  show "visit (\<lambda>a log. (a, log @ [a])) (items, []) = (Inr (), items, rev items)"
    using assms by (rule visit_log)
qed

theorem C7_witness:
  "[1, 2, 3::nat] \<noteq> []
   \<and> visit (\<lambda>a log. (a, log @ [a])) ([1, 2, 3::nat], []) = (Inr (), [1, 2, 3], [3, 2, 1])"
proof -
  have ne: "[1, 2, 3::nat] \<noteq> []" by simp
  have "visit (\<lambda>a log. (a, log @ [a])) ([1, 2, 3::nat], []) = (Inr (), [1, 2, 3], rev [1, 2, 3])"
    using C7_visit_descending [OF ne, where visitor = "\<lambda>a log. (a, log @ [a])" and s = "[]"]
    by (rule conjunct2)
  with ne show ?thesis by simp
qed

text \<open>
  The claim C8 as stated fails on the map without bindings: no binding has the key, yet
  \<^verbatim>\<open>size(key)\<close> raises no KeyError, since \<^verbatim>\<open>size_helper\<close> has no instantiation
  there (\<^verbatim>\<open>sizeof...(KVPAIRS) - 1\<close> is not below \<^verbatim>\<open>sizeof...(KVPAIRS)\<close> and no
  type is left for \<^verbatim>\<open>KV\<close>).
\<close>

theorem C8_counterexample:
  "tmap_size_key ([] :: (string \<times> string list) list) ''chicken'' = Inl Ill_formed"
  by (simp add: tmap_size_key_def)

text \<open>
  C8, amended. On a map with at least one binding, whose values are String Sequences,
  \<^verbatim>\<open>size(key)\<close> returns the number of elements of the sequence of the first binding,
  in declaration order, whose key equals \<open>key\<close>, and it throws the map's
  \<^verbatim>\<open>std::out_of_range\<close> (the KeyError) if and only if no binding has that key.
\<close>

theorem C8_size_key:
  assumes "KVPAIRS \<noteq> []"
  shows "tmap_size_key KVPAIRS key =
     (case map_of KVPAIRS key of
        None \<Rightarrow> Inl (Out_of_range ''couldn't find key in tmap in size_helper'')
      | Some xs \<Rightarrow> Inr (tstrlist_size xs))
   \<and> (tmap_size_key KVPAIRS key = Inl (Out_of_range ''couldn't find key in tmap in size_helper'')
        \<longleftrightarrow> key \<notin> fst ` set KVPAIRS)"
proof -
  from assms obtain n where n: "length KVPAIRS = Suc n" by (cases KVPAIRS) auto
  then have "tmap_size_key KVPAIRS key = size_helper (Suc n) n KVPAIRS key"
    by (simp add: tmap_size_key_def size_t_dec_def)
  also have "\<dots> = (case map_of KVPAIRS key of
        None \<Rightarrow> Inl (Out_of_range ''couldn't find key in tmap in size_helper'')
      | Some xs \<Rightarrow> Inr (tstrlist_size xs))"
    by (rule size_helper_scan [OF n]) simp
  finally have eq: "tmap_size_key KVPAIRS key =
     (case map_of KVPAIRS key of
        None \<Rightarrow> Inl (Out_of_range ''couldn't find key in tmap in size_helper'')
      | Some xs \<Rightarrow> Inr (tstrlist_size xs))" .
  then show ?thesis
    by (simp add: map_of_eq_None_iff [symmetric] split: option.splits)
qed

theorem C8_witness:
  "[(''a'', [''x'']), (''a'', [''y'', ''z''])] \<noteq> []
   \<and> tmap_size_key [(''a'', [''x'']), (''a'', [''y'', ''z''])] ''a'' = Inr 1
   \<and> tmap_size_key [(''a'', [''x'']), (''a'', [''y'', ''z''])] ''b'' =
       Inl (Out_of_range ''couldn't find key in tmap in size_helper'')"
  using C8_size_key [of "[(''a'', [''x'']), (''a'', [''y'', ''z''])]" "''a''"]
    C8_size_key [of "[(''a'', [''x'']), (''a'', [''y'', ''z''])]" "''b''"]
  by (simp add: tstrlist_size_def)

text \<open>
  C9. The recursive helpers terminate on every argument (lemmas
  \<open>tstrlist_get_helper_terminates\<close> to \<open>tmap_get_helper_terminates\<close>: \<^verbatim>\<open>N\<close>
  decreases at every call), but one operation is not a total computation: on
  \<^verbatim>\<open>tlist<uint64_t, 1, 2>\<close>, the sequence of \<^verbatim>\<open>instance2\<close> in \<^verbatim>\<open>test.cc\<close>,
  whose size is 2, \<^verbatim>\<open>operator[]\<close> at index 2 is a read past the end of the array,
  for which the language defines no result and no termination (the defect of C5).
\<close>

theorem C9_tlist_index_undefined:
  "tlist_size [1::nat, 2] = 2
   \<and> tlist_index [1::nat, 2] 2 = Inl Undefined_behaviour"
  by (simp add: tlist_size_def tlist_index_def)

text \<open>
  C10. Visitation exists on non-empty Heterogeneous Sequences only:
  \<^verbatim>\<open>visit(visitor)\<close> and \<^verbatim>\<open>visit(visitor, i)\<close> have no instantiation exactly when
  the sequence is empty (their constraint is \<^verbatim>\<open>sizeof...(ARGS) > 0\<close>), and on the
  empty sequence the two helpers \<^verbatim>\<open>visit<N>\<close> and \<^verbatim>\<open>ivisit<N>\<close> have none for
  any \<^verbatim>\<open>N\<close> (their constraint is \<^verbatim>\<open>N < sizeof...(ARGS)\<close>).
\<close>

theorem C10_visitation_needs_elements:
  "(fst (visit visitor (items, s)) = Inl Ill_formed) = (items = [])
   \<and> (fst (visit_index visitor i (items, s)) = Inl Ill_formed) = (items = [])
   \<and> fst (visit_from N visitor ([], s)) = Inl Ill_formed
   \<and> fst (ivisit N visitor i ([], s)) = Inl Ill_formed"
proof (cases "items = []")
  case True
  then show ?thesis
    by (simp add: visit_def visit_index_def visit_from.simps ivisit.simps)
next
  case False
  then show ?thesis
    by (simp add: visit_fold visit_index_scan visit_from.simps ivisit.simps)
qed

end
